theory Spec2Isabelle
  imports Complex_Main
begin

section \<open>Values, errors and random sources\<close>

text \<open>
  The program (\<^verbatim>\<open>fret_hmm.py\<close>) computes with Python and numpy floats. They are
  modelled by exact reals, extended with the three special values that numpy's division
  produces when the divisor is zero (numpy warns and goes on; it does not raise):
  \<open>x / 0\<close> is \<open>nan\<close> for \<open>x = 0\<close> and an infinity of the sign of \<open>x\<close> otherwise.
  Rounding is not modelled: a difference or a quotient here is the exact one, where the
  program's is the nearest double. So what is proved below of a sampled state is either
  independent of its value (it is one of the choices), or about weights and draws on
  which the doubles compute exactly.
\<close>

datatype npfloat = Fin real | PInf | NInf | NaN

text \<open>\<^verbatim>\<open>r < p\<close>: every comparison with \<open>nan\<close> is false.\<close>

fun np_less :: "npfloat \<Rightarrow> npfloat \<Rightarrow> bool" where
  "np_less NaN _ = False"
| "np_less _ NaN = False"
| "np_less (Fin a) (Fin b) = (a < b)"
| "np_less (Fin a) PInf = True"
| "np_less (Fin a) NInf = False"
| "np_less PInf _ = False"
| "np_less NInf NInf = False"
| "np_less NInf _ = True"

text \<open>\<^verbatim>\<open>r -= p\<close>, without the rounding of the double.\<close>

fun np_minus :: "npfloat \<Rightarrow> npfloat \<Rightarrow> npfloat" where
  "np_minus NaN _ = NaN"
| "np_minus _ NaN = NaN"
| "np_minus (Fin a) (Fin b) = Fin (a - b)"
| "np_minus (Fin a) PInf = NInf"
| "np_minus (Fin a) NInf = PInf"
| "np_minus PInf PInf = NaN"
| "np_minus PInf _ = PInf"
| "np_minus NInf NInf = NaN"
| "np_minus NInf _ = NInf"

text \<open>Division of a finite value by a finite value, as numpy does it.\<close>

definition np_div :: "real \<Rightarrow> real \<Rightarrow> npfloat" where
  "np_div x d =
     (if d \<noteq> 0 then Fin (x / d)
      else if x = 0 then NaN
      else if 0 < x then PInf else NInf)"

datatype py_error = RuntimeError | IndexError | ValueError | OverflowError

text \<open>
  The program draws from two module-level generators: Python's \<^verbatim>\<open>random\<close>
  (\<^verbatim>\<open>random.random()\<close>) and numpy's (\<^verbatim>\<open>random_sample\<close>, \<^verbatim>\<open>randint\<close>,
  \<^verbatim>\<open>poisson\<close>). A generator is modelled by the sequence of outcomes its future draws
  will have; drawing returns the first outcome and leaves the rest. A Poisson draw is
  an outcome that still depends on the rate it is asked for.
\<close>

type_synonym 'a source = "nat \<Rightarrow> 'a"

definition next_draw :: "'a source \<Rightarrow> 'a \<times> 'a source" where
  "next_draw s = (s 0, \<lambda>k. s (Suc k))"

definition draws :: "nat \<Rightarrow> 'a source \<Rightarrow> 'a list \<times> 'a source" where
  "draws n s = (map s [0..<n], \<lambda>k. s (n + k))"

record rng =
  py_random :: "real source"
  np_sample :: "real source"
  np_randint :: "int source"
  np_poisson :: "(real \<Rightarrow> nat) source"

text \<open>\<^verbatim>\<open>random.random()\<close> and \<^verbatim>\<open>random_sample\<close> return values in \<open>[0, 1)\<close>.\<close>

definition unit_interval :: "real source \<Rightarrow> bool" where
  "unit_interval s = (\<forall>k. 0 \<le> s k \<and> s k < 1)"

section \<open>The categorical sampler\<close>

text \<open>
  \<^verbatim>\<open>
  def weighted_choice(choices, probs):
          #assert sum(probs) == 1
          r = random.random()
          for c,p in zip(choices, probs):
                  if r < p: return c
                  r -= p
          raise RuntimeError()
  \<close>
\<close>

fun weighted_choice_loop :: "npfloat \<Rightarrow> ('a \<times> npfloat) list \<Rightarrow> py_error + 'a" where
  "weighted_choice_loop r [] = Inl RuntimeError"
| "weighted_choice_loop r ((c, p) # cps) =
     (if np_less r p then Inr c else weighted_choice_loop (np_minus r p) cps)"

definition weighted_choice :: "'a list \<Rightarrow> npfloat list \<Rightarrow> rng \<Rightarrow> py_error + ('a \<times> rng)" where
  "weighted_choice choices probs g =
     (let (r, s) = next_draw (py_random g) in
      case weighted_choice_loop (Fin r) (zip choices probs) of
        Inl e \<Rightarrow> Inl e
      | Inr c \<Rightarrow> Inr (c, g\<lparr>py_random := s\<rparr>))"

section \<open>Models\<close>

text \<open>
  \<^verbatim>\<open>Model = namedtuple('Model', 'n_states n_obs start_prob trans_prob emissions')\<close>
  The two counts come from a numpy shape, so they are naturals.
\<close>

record model =
  n_states :: nat
  n_obs :: nat
  start_prob :: "npfloat list"
  trans_prob :: "npfloat list list"
  emissions :: "real list list"

section \<open>The trajectory simulator\<close>

text \<open>
  \<^verbatim>\<open>poisson(datum)\<close> on a row of rates: numpy refuses a negative rate before it
  draws (\<^verbatim>\<open>ValueError: lam < 0\<close>), and otherwise draws one count per channel.
  Later versions of numpy refuse in the same way a rate above a bound near \<open>9.2e18\<close>;
  that version-dependent refusal is not modelled, and nothing below says that a call
  with noise returns.
\<close>

definition poisson :: "real list \<Rightarrow> rng \<Rightarrow> py_error + (real list \<times> rng)" where
  "poisson lam g =
     (if \<exists>x \<in> set lam. x < 0 then Inl ValueError
      else (let (fs, s) = draws (length lam) (np_poisson g) in
        Inr (map (\<lambda>(f, x). real (f x)) (zip fs lam), g\<lparr>np_poisson := s\<rparr>)))"

text \<open>
  The local variables of \<^verbatim>\<open>random_data\<close> that the loop changes.
  \<^verbatim>\<open>
  def random_data(model, length, noise=True):
          state_seq = []
          state = weighted_choice(xrange(model.n_states), model.start_prob)
          data = []
          dwells = [ [] for s in range(model.n_states) ]
          dwell = 0
          for i in xrange(length):
                  state_seq.append(state)
                  datum = model.emissions[state]
                  if noise:
                          datum = poisson(datum)
                  data.append(datum)

                  old_state = state
                  state = weighted_choice(xrange(model.n_states), model.trans_prob[state])

                  if state != old_state:
                          dwells[old_state].append(dwell)
                          dwell = 0

                  dwell += 1

          return data, state_seq, dwells
  \<close>
\<close>

record sim =
  state :: nat
  data :: "real list list"
  state_seq :: "nat list"
  dwells :: "nat list list"
  dwell :: nat

text \<open>One pass through the loop body. An index past the end of a list raises.\<close>

definition random_data_step :: "model \<Rightarrow> bool \<Rightarrow> sim \<times> rng \<Rightarrow> py_error + (sim \<times> rng)" where
  "random_data_step m noise vg =
     (let (v, g) = vg; old_state = state v in
      if \<not> old_state < length (emissions m) then Inl IndexError
      else
        case (if noise then poisson (emissions m ! old_state) g
              else Inr (emissions m ! old_state, g)) of
          Inl e \<Rightarrow> Inl e
        | Inr (datum, g1) \<Rightarrow>
            if \<not> old_state < length (trans_prob m) then Inl IndexError
            else
              case weighted_choice [0..<n_states m] (trans_prob m ! old_state) g1 of
                Inl e \<Rightarrow> Inl e
              | Inr (state', g2) \<Rightarrow>
                  if state' \<noteq> old_state then
                    (if \<not> old_state < length (dwells v) then Inl IndexError
                     else Inr (\<lparr>state = state',
                                data = data v @ [datum],
                                state_seq = state_seq v @ [old_state],
                                dwells = (dwells v)[old_state := dwells v ! old_state @ [dwell v]],
                                dwell = 0 + 1\<rparr>, g2))
                  else Inr (\<lparr>state = state',
                             data = data v @ [datum],
                             state_seq = state_seq v @ [old_state],
                             dwells = dwells v,
                             dwell = dwell v + 1\<rparr>, g2))"

text \<open>\<^verbatim>\<open>for i in xrange(length)\<close>: the body, \<open>k\<close> times; an exception ends the loop.\<close>

fun random_data_loop :: "model \<Rightarrow> bool \<Rightarrow> nat \<Rightarrow> sim \<times> rng \<Rightarrow> py_error + (sim \<times> rng)" where
  "random_data_loop m noise 0 vg = Inr vg"
| "random_data_loop m noise (Suc k) vg =
     (case random_data_step m noise vg of
        Inl e \<Rightarrow> Inl e
      | Inr vg' \<Rightarrow> random_data_loop m noise k vg')"

text \<open>
  \<^verbatim>\<open>length\<close> is a Python integer. \<^verbatim>\<open>xrange(length)\<close> takes a C long: outside
  its range (here that of a 64-bit platform, \<^verbatim>\<open>sys.maxint\<close> being \<open>2\<^sup>6\<^sup>3 - 1\<close>) it
  raises \<^verbatim>\<open>OverflowError\<close>, after the initial state has been sampled. Inside the range
  it is empty when \<^verbatim>\<open>length\<close> is zero or negative, so the loop runs \<open>nat len\<close> times.
  The result is the triple \<^verbatim>\<open>(data, state_seq, dwells)\<close>, with the generators as the
  call leaves them.
\<close>

definition sys_maxint :: int where
  "sys_maxint = 2 ^ 63 - 1"

type_synonym trajectory = "real list list \<times> nat list \<times> nat list list"

definition random_data :: "model \<Rightarrow> int \<Rightarrow> bool \<Rightarrow> rng \<Rightarrow> py_error + (trajectory \<times> rng)" where
  "random_data m len noise g =
     (case weighted_choice [0..<n_states m] (start_prob m) g of
        Inl e \<Rightarrow> Inl e
      | Inr (state0, g0) \<Rightarrow>
          if len < - sys_maxint - 1 \<or> sys_maxint < len then Inl OverflowError
          else
            case random_data_loop m noise (nat len)
                   (\<lparr>state = state0, data = [], state_seq = [],
                     dwells = replicate (n_states m) [], dwell = 0\<rparr>, g0) of
              Inl e \<Rightarrow> Inl e
            | Inr (v, g') \<Rightarrow> Inr ((data v, state_seq v, dwells v), g'))"

section \<open>The model factory\<close>

text \<open>
  A numpy array as \<^verbatim>\<open>random_model_from_emissions\<close> reads it: a vector, a matrix given
  by its number of columns and its rows (its shape is \<open>(length rows, columns)\<close>, which a
  matrix without rows still has), or an array of another number of dimensions, of which
  only the shape is kept.
\<close>

datatype ndarray = Array1 "real list" | Array2 nat "real list list" | ArrayN "nat list"

text \<open>\<^verbatim>\<open>t /= sum(t)\<close>\<close>

definition normalise :: "real list \<Rightarrow> npfloat list" where
  "normalise t = map (\<lambda>x. np_div x (sum_list t)) t"

text \<open>
  The body of \<^verbatim>\<open>for i in xrange(n_states)\<close>; \<open>i\<close> is below \<open>n\<close> there, so
  \<^verbatim>\<open>t[i] = stay_prob\<close> is in range.
  \<^verbatim>\<open>
                stay_prob = random.random()
                t = stay_prob * random_sample(n_states)
                t[i] = stay_prob
                t /= sum(t)
                transition_prob.append(t)
  \<close>
\<close>

definition transition_row :: "nat \<Rightarrow> nat \<Rightarrow> rng \<Rightarrow> npfloat list \<times> rng" where
  "transition_row n i g =
     (let (stay_prob, s) = next_draw (py_random g);
          (u, s') = draws n (np_sample g);
          t = (map (\<lambda>x. stay_prob * x) u)[i := stay_prob]
      in (normalise t, g\<lparr>py_random := s, np_sample := s'\<rparr>))"

fun transition_rows :: "nat \<Rightarrow> nat list \<Rightarrow> rng \<Rightarrow> npfloat list list \<times> rng" where
  "transition_rows n [] g = ([], g)"
| "transition_rows n (i # is) g =
     (let (t, g1) = transition_row n i g;
          (ts, g2) = transition_rows n is g1
      in (t # ts, g2))"

text \<open>
  \<^verbatim>\<open>
  def random_model_from_emissions(emissions):
          if len(emissions.shape) == 1:
                  emissions = emissions.reshape((len(emissions), 1))
          n_states, n_obs = emissions.shape
          start_prob = random_sample(n_states)
          start_prob /= sum(start_prob)
          transition_prob = []
          for i in xrange(n_states): ...
          transition_prob = array(transition_prob)
          return Model(n_states, n_obs, start_prob, transition_prob, emissions)
  \<close>
  Unpacking a shape that is not a pair raises \<^verbatim>\<open>ValueError\<close>.
\<close>

definition random_model_from_emissions :: "ndarray \<Rightarrow> rng \<Rightarrow> py_error + (model \<times> rng)" where
  "random_model_from_emissions emissions0 g =
     (case (case emissions0 of Array1 xs \<Rightarrow> Array2 1 (map (\<lambda>x. [x]) xs) | a \<Rightarrow> a) of
        Array2 n_obs' rows \<Rightarrow>
          (let n_states' = length rows;
               (u, s) = draws n_states' (np_sample g);
               start = normalise u;
               (transition_prob, g') = transition_rows n_states' [0..<n_states'] (g\<lparr>np_sample := s\<rparr>)
           in Inr (\<lparr>n_states = n_states', n_obs = n_obs', start_prob = start,
                     trans_prob = transition_prob, emissions = rows\<rparr>, g'))
      | _ \<Rightarrow> Inl ValueError)"

text \<open>
  \<^verbatim>\<open>randint(0, 1500, (n_states, n_obs))\<close>: the matrix is filled row by row; numpy
  refuses a negative dimension.
  \<^verbatim>\<open>
  def random_model(n_states, n_obs):
          emissions = randint(0, 1500, (n_states, n_obs))
          return random_model_from_emissions(emissions)
  \<close>
\<close>

definition randint_matrix :: "nat \<Rightarrow> nat \<Rightarrow> int source \<Rightarrow> int list list \<times> int source" where
  "randint_matrix r c s =
     (map (\<lambda>i. map (\<lambda>j. s (i * c + j)) [0..<c]) [0..<r], \<lambda>k. s (r * c + k))"

definition random_model :: "int \<Rightarrow> int \<Rightarrow> rng \<Rightarrow> py_error + (model \<times> rng)" where
  "random_model n_states' n_obs' g =
     (if n_states' < 0 \<or> n_obs' < 0 then Inl ValueError
      else (let (ints, s) = randint_matrix (nat n_states') (nat n_obs') (np_randint g) in
        random_model_from_emissions (Array2 (nat n_obs') (map (map real_of_int) ints))
          (g\<lparr>np_randint := s\<rparr>)))"

section \<open>What the specification calls a valid model\<close>

text \<open>
  The specification's data model: the probability vector and every row of the transition
  matrix are non-negative and sum to 1 within the tolerance of its testable properties
  (\<open>1 \<plusminus> 1e-9\<close>), the lengths agree with \<open>n_states\<close> and \<open>n_obs\<close>, both positive,
  and the emission parameters are non-negative.
\<close>

fun is_weight :: "npfloat \<Rightarrow> bool" where
  "is_weight (Fin x) = (0 \<le> x)"
| "is_weight _ = False"

fun weight :: "npfloat \<Rightarrow> real" where
  "weight (Fin x) = x"
| "weight _ = 0"

definition distribution :: "npfloat list \<Rightarrow> bool" where
  "distribution ps = (list_all is_weight ps \<and> \<bar>sum_list (map weight ps) - 1\<bar> \<le> 1 / 10 ^ 9)"

definition valid_model :: "model \<Rightarrow> bool" where
  "valid_model m =
     (0 < n_states m \<and> 0 < n_obs m
      \<and> length (start_prob m) = n_states m \<and> distribution (start_prob m)
      \<and> length (trans_prob m) = n_states m
      \<and> list_all (\<lambda>row. length row = n_states m \<and> distribution row) (trans_prob m)
      \<and> length (emissions m) = n_states m
      \<and> list_all (\<lambda>row. length row = n_obs m \<and> list_all (\<lambda>x. 0 \<le> x) row) (emissions m))"

section \<open>Dwell runs of a path\<close>

text \<open>
  The chain's path is the state sequence followed by the state sampled after the last
  step. A run is a maximal block of equal consecutive states; it is completed when the
  path goes on with another state. \<open>runs_from s k xs\<close> lists the completed runs, as
  pairs of state and length, of a path that has been in \<open>s\<close> for \<open>k\<close> steps and goes
  on with \<open>xs\<close>.
\<close>

fun runs_from :: "nat \<Rightarrow> nat \<Rightarrow> nat list \<Rightarrow> (nat \<times> nat) list" where
  "runs_from s k [] = []"
| "runs_from s k (x # xs) =
     (if x = s then runs_from s (Suc k) xs else (s, k) # runs_from x 1 xs)"




section \<open>Concrete inputs\<close>

text \<open>Generators whose uniform draws all have the same outcome.\<close>

definition const_rng :: "real \<Rightarrow> rng" where
  "const_rng r = \<lparr>py_random = (\<lambda>_. r), np_sample = (\<lambda>_. r), np_randint = (\<lambda>_. 0),
                  np_poisson = (\<lambda>_ x. nat \<lfloor>x\<rfloor>)\<rparr>"

text \<open>The two-state model that always alternates, and the one that stays in state 0.\<close>

definition alternating_model :: model where
  "alternating_model =
     \<lparr>n_states = 2, n_obs = 2, start_prob = [Fin 1, Fin 0],
      trans_prob = [[Fin 0, Fin 1], [Fin 1, Fin 0]],
      emissions = [[10, 0], [0, 20]]\<rparr>"

definition absorbing_model :: model where
  "absorbing_model =
     \<lparr>n_states = 2, n_obs = 1, start_prob = [Fin 1, Fin 0],
      trans_prob = [[Fin 1, Fin 0], [Fin (1/2), Fin (1/2)]],
      emissions = [[342], [541]]\<rparr>"

text \<open>What a call returns or raises, without the generators it leaves.\<close>

definition outcome :: "py_error + ('a \<times> rng) \<Rightarrow> py_error + 'a" where
  "outcome res = map_sum id fst res"

section \<open>Properties of the categorical sampler\<close>

text \<open>
  C1 fails on the code. The weights \<open>1/2\<close> and \<open>1/2 - 2\<^sup>-\<^sup>3\<^sup>1\<close> are non-negative and
  sum to 1 within \<open>1e-9\<close>, the draw \<open>1 - 2\<^sup>-\<^sup>3\<^sup>2\<close> is in \<open>[0, 1)\<close>, and the walk
  is exhausted: \<open>weighted_choice\<close> raises \<open>RuntimeError\<close>. (All these values are doubles
  and both subtractions of the walk are exact in doubles.)
\<close>

theorem weighted_choice_near_normalized_raises:
  "(0::real) \<le> 1/2 \<and> (0::real) \<le> 1/2 - 1/2^31
   \<and> \<bar>sum_list [1/2, 1/2 - 1/2^31] - (1::real)\<bar> \<le> 1/10^9
   \<and> 0 \<le> py_random (const_rng (1 - 1/2^32)) 0 \<and> py_random (const_rng (1 - 1/2^32)) 0 < 1
   \<and> weighted_choice [0::nat, 1] [Fin (1/2), Fin (1/2 - 1/2^31)] (const_rng (1 - 1/2^32))
        = Inl RuntimeError"
  by (simp add: weighted_choice_def next_draw_def const_rng_def)

section \<open>Properties of the trajectory simulator\<close>

lemma weighted_choice_loop_member:
  "weighted_choice_loop r cps = Inr c \<Longrightarrow> c \<in> fst ` set cps"
  by (induction r cps rule: weighted_choice_loop.induct) (auto split: if_splits)

lemma weighted_choice_Inr:
  "weighted_choice choices probs g = Inr (c, g')
   \<Longrightarrow> c \<in> set choices \<and> g' = g\<lparr>py_random := \<lambda>k. py_random g (Suc k)\<rparr>"
  by (auto simp: weighted_choice_def next_draw_def split: sum.splits
           dest!: weighted_choice_loop_member dest: set_zip_leftD)

text \<open>What one pass through the body does, when it raises nothing.\<close>

lemma random_data_step_Inr:
  assumes "random_data_step m noise (v, g) = Inr (v', g')"
  shows "state_seq v' = state_seq v @ [state v]"
    and "length (data v') = Suc (length (data v))"
    and "\<not> noise \<Longrightarrow> data v' = data v @ [emissions m ! state v]"
    and "state v' < n_states m"
    and "(state v' = state v \<and> dwells v' = dwells v \<and> dwell v' = Suc (dwell v))
         \<or> (state v' \<noteq> state v \<and> state v < length (dwells v)
            \<and> dwells v' = (dwells v)[state v := dwells v ! state v @ [dwell v]] \<and> dwell v' = 1)"
  using assms
  by (auto simp: random_data_step_def Let_def split: if_splits sum.splits prod.splits
           dest!: weighted_choice_Inr)

lemma random_data_loop_lengths:
  "random_data_loop m noise k (v, g) = Inr (v', g')
   \<Longrightarrow> length (state_seq v') = length (state_seq v) + k \<and> length (data v') = length (data v) + k"
proof (induction k arbitrary: v g)
  case 0
  then show ?case by simp
next
  case (Suc k)
  then obtain v1 g1 where s: "random_data_step m noise (v, g) = Inr (v1, g1)"
    and l: "random_data_loop m noise k (v1, g1) = Inr (v', g')"
    by (auto split: sum.splits)
  show ?case
    using Suc.IH[OF l] random_data_step_Inr(1,2)[OF s] by simp
qed

lemma random_data_loop_in_range:
  "random_data_loop m noise k (v, g) = Inr (v', g') \<Longrightarrow> state v < n_states m
   \<Longrightarrow> \<forall>s \<in> set (state_seq v). s < n_states m
   \<Longrightarrow> \<forall>s \<in> set (state_seq v'). s < n_states m"
proof (induction k arbitrary: v g)
  case 0
  then show ?case by simp
next
  case (Suc k)
  then obtain v1 g1 where s: "random_data_step m noise (v, g) = Inr (v1, g1)"
    and l: "random_data_loop m noise k (v1, g1) = Inr (v', g')"
    by (auto split: sum.splits)
  show ?case
    using Suc.IH[OF l] random_data_step_Inr(1,4)[OF s] Suc.prems(2,3) by simp
qed

lemma random_data_loop_noiseless:
  "random_data_loop m False k (v, g) = Inr (v', g')
   \<Longrightarrow> data v = map (\<lambda>s. emissions m ! s) (state_seq v)
   \<Longrightarrow> data v' = map (\<lambda>s. emissions m ! s) (state_seq v')"
proof (induction k arbitrary: v g)
  case 0
  then show ?case by simp
next
  case (Suc k)
  then obtain v1 g1 where s: "random_data_step m False (v, g) = Inr (v1, g1)"
    and l: "random_data_loop m False k (v1, g1) = Inr (v', g')"
    by (auto split: sum.splits)
  show ?case
    using Suc.IH[OF l] random_data_step_Inr(1,3)[OF s] Suc.prems(2) by simp
qed

text \<open>Inside the range of a C long, the call is the initial sample and then the loop.\<close>

lemma random_data_in_range:
  assumes "- sys_maxint - 1 \<le> len" and "len \<le> sys_maxint"
  shows "random_data m len noise g =
     (case weighted_choice [0..<n_states m] (start_prob m) g of
        Inl e \<Rightarrow> Inl e
      | Inr (state0, g0) \<Rightarrow>
          case random_data_loop m noise (nat len)
                 (\<lparr>state = state0, data = [], state_seq = [],
                   dwells = replicate (n_states m) [], dwell = 0\<rparr>, g0) of
            Inl e \<Rightarrow> Inl e
          | Inr (v, g') \<Rightarrow> Inr ((data v, state_seq v, dwells v), g'))"
  using assms by (simp add: random_data_def not_less split: sum.splits prod.splits)

text \<open>A returned trajectory comes from an initial sample and a loop that both returned.\<close>

lemma random_data_Inr:
  assumes "random_data m L noise g = Inr ((obs, seq, dw), g')"
  obtains s0 g0 v where "weighted_choice [0..<n_states m] (start_prob m) g = Inr (s0, g0)"
    and "random_data_loop m noise (nat L)
           (\<lparr>state = s0, data = [], state_seq = [], dwells = replicate (n_states m) [], dwell = 0\<rparr>, g0)
         = Inr (v, g')"
    and "obs = data v" and "seq = state_seq v" and "dw = dwells v"
  using assms by (auto simp: random_data_def split: sum.splits prod.splits if_splits)

text \<open>
  C3. For every model, valid or not, every length \<open>L > 0\<close> and either setting of the
  noise flag: the trajectory that \<open>random_data\<close> returns has observations and a state
  sequence of length \<open>L\<close>, and every state of the sequence is below \<open>n_states\<close>.
\<close>

theorem random_data_returned_length_and_range:
  assumes "random_data m L noise g = Inr ((obs, seq, dw), g')" and "0 < L"
  shows "int (length obs) = L \<and> int (length seq) = L \<and> (\<forall>s \<in> set seq. s < n_states m)"
proof -
  from assms(1) obtain s0 g0 v
    where w: "weighted_choice [0..<n_states m] (start_prob m) g = Inr (s0, g0)"
      and l: "random_data_loop m noise (nat L)
                (\<lparr>state = s0, data = [], state_seq = [], dwells = replicate (n_states m) [], dwell = 0\<rparr>, g0)
              = Inr (v, g')"
      and r: "obs = data v" "seq = state_seq v"
    by (rule random_data_Inr)
  have s0: "s0 < n_states m" using weighted_choice_Inr[OF w] by simp
  have "length (state_seq v) = nat L" "length (data v) = nat L"
    using random_data_loop_lengths[OF l] by simp_all
  moreover have "\<forall>s \<in> set (state_seq v). s < n_states m"
    using random_data_loop_in_range[OF l] s0 by simp
  ultimately show ?thesis using r assms(2) by simp
qed

text \<open>The alternating model, four steps, with noise.\<close>

theorem random_data_returned_length_and_range_witness:
  "random_data alternating_model 4 True (const_rng (1/2))
     = Inr (([[10, 0], [0, 20], [10, 0], [0, 20]], [0, 1, 0, 1], [[0, 1], [1, 1]]), const_rng (1/2))
   \<and> (0::int) < 4
   \<and> int (length [[10, 0], [0, 20], [10, 0], [0, 20::real]]) = 4 \<and> int (length [0, 1, 0, 1::nat]) = 4
   \<and> list_all (\<lambda>s. s < n_states alternating_model) [0, 1, 0, 1]"
proof -
  have h: "random_data alternating_model 4 True (const_rng (1/2))
     = Inr (([[10, 0], [0, 20], [10, 0], [0, 20]], [0, 1, 0, 1], [[0, 1], [1, 1]]), const_rng (1/2))"
    by (simp add: random_data_def sys_maxint_def alternating_model_def weighted_choice_def
        next_draw_def random_data_step_def poisson_def draws_def eval_nat_numeral upt_rec const_rng_def)
  from random_data_returned_length_and_range[OF h] show ?thesis
    using h by (simp add: list_all_iff)
qed

text \<open>
  C8. For every model, valid or not, and every length: without noise, in the trajectory
  that \<open>random_data\<close> returns the observation of every step \<open>i\<close> is the row of
  \<open>emissions\<close> that the state of step \<open>i\<close> indexes, unchanged.
\<close>

theorem random_data_noiseless_rows:
  assumes "random_data m L False g = Inr ((obs, seq, dw), g')"
  shows "length seq = nat L \<and> length obs = length seq
         \<and> (\<forall>i < length seq. obs ! i = emissions m ! (seq ! i))"
proof -
  from assms obtain s0 g0 v
    where l: "random_data_loop m False (nat L)
                (\<lparr>state = s0, data = [], state_seq = [], dwells = replicate (n_states m) [], dwell = 0\<rparr>, g0)
              = Inr (v, g')"
      and r: "obs = data v" "seq = state_seq v"
    by (rule random_data_Inr)
  have "length (state_seq v) = nat L"
    using random_data_loop_lengths[OF l] by simp
  moreover have "data v = map (\<lambda>s. emissions m ! s) (state_seq v)"
    using random_data_loop_noiseless[OF l] by simp
  ultimately show ?thesis using r by simp
qed

text \<open>The alternating model, four steps, without noise.\<close>

theorem random_data_noiseless_rows_witness:
  "random_data alternating_model 4 False (const_rng (1/2))
     = Inr (([[10, 0], [0, 20], [10, 0], [0, 20]], [0, 1, 0, 1], [[0, 1], [1, 1]]), const_rng (1/2))
   \<and> length [0, 1, 0, 1::nat] = nat 4
   \<and> [[10, 0], [0, 20], [10, 0], [0, 20]] = map (\<lambda>s. emissions alternating_model ! s) [0, 1, 0, 1]"
proof -
  have h: "random_data alternating_model 4 False (const_rng (1/2))
     = Inr (([[10, 0], [0, 20], [10, 0], [0, 20]], [0, 1, 0, 1], [[0, 1], [1, 1]]), const_rng (1/2))"
    by (simp add: random_data_def sys_maxint_def alternating_model_def weighted_choice_def
        next_draw_def random_data_step_def eval_nat_numeral upt_rec const_rng_def)
  from random_data_noiseless_rows[OF h] show ?thesis
    using h by (simp add: alternating_model_def)
qed




lemma weighted_choice_first:
  "0 < n \<Longrightarrow> py_random g 0 < 1
   \<Longrightarrow> weighted_choice [0..<n] (Fin 1 # ps) g = Inr (0, g\<lparr>py_random := \<lambda>k. py_random g (Suc k)\<rparr>)"
  by (simp add: weighted_choice_def next_draw_def upt_conv_Cons)

lemma weighted_choice_second:
  "0 \<le> py_random g 0 \<Longrightarrow> py_random g 0 < 1
   \<Longrightarrow> weighted_choice [0..<2] (Fin 0 # Fin 1 # ps) g = Inr (1, g\<lparr>py_random := \<lambda>k. py_random g (Suc k)\<rparr>)"
  by (simp add: weighted_choice_def next_draw_def upt_conv_Cons)

lemma absorbing_step:
  assumes "state v = 0" and "trans_prob m = (Fin 1 # ps) # rows" and "emissions m = e0 # es"
    and "0 < n_states m" and "py_random g 0 < 1"
  shows "random_data_step m False (v, g)
         = Inr (v\<lparr>data := data v @ [e0], state_seq := state_seq v @ [0], dwell := Suc (dwell v)\<rparr>,
                g\<lparr>py_random := \<lambda>k. py_random g (Suc k)\<rparr>)"
  using assms by (simp add: random_data_step_def weighted_choice_first)

lemma absorbing_loop:
  assumes "trans_prob m = (Fin 1 # ps) # rows" and "emissions m = e0 # es" and "0 < n_states m"
  shows "state v = 0 \<Longrightarrow> unit_interval (py_random g)
   \<Longrightarrow> random_data_loop m False k (v, g)
       = Inr (v\<lparr>data := data v @ replicate k e0, state_seq := state_seq v @ replicate k 0,
                dwell := dwell v + k\<rparr>,
              g\<lparr>py_random := \<lambda>j. py_random g (j + k)\<rparr>)"
proof (induction k arbitrary: v g)
  case 0
  then show ?case by simp
next
  case (Suc k)
  let ?v1 = "v\<lparr>data := data v @ [e0], state_seq := state_seq v @ [0], dwell := Suc (dwell v)\<rparr>"
  let ?g1 = "g\<lparr>py_random := \<lambda>k. py_random g (Suc k)\<rparr>"
  have "py_random g 0 < 1" using Suc.prems(2) by (simp add: unit_interval_def)
  from absorbing_step[OF Suc.prems(1) assms this]
  have s: "random_data_step m False (v, g) = Inr (?v1, ?g1)" .
  have "state ?v1 = 0" "unit_interval (py_random ?g1)"
    using Suc.prems by (simp_all add: unit_interval_def)
  from Suc.IH[OF this] show ?case
    by (simp add: s replicate_append_same)
qed

text \<open>
  C5. A two-state model that starts in state 0 and always stays there, simulated for five
  steps without noise: the state sequence is five times 0, and both dwell lists are empty,
  the run in progress at the end never being appended.
\<close>

theorem absorbing_state_never_flushed:
  assumes "n_states m = 2" and "start_prob m = [Fin 1, Fin 0]"
    and "trans_prob m = [[Fin 1, Fin 0], row1]" and "emissions m = [e0, e1]"
    and "unit_interval (py_random g)"
  shows "outcome (random_data m 5 False g) = Inr ([e0, e0, e0, e0, e0], [0, 0, 0, 0, 0], [[], []])"
proof -
  let ?g0 = "g\<lparr>py_random := \<lambda>k. py_random g (Suc k)\<rparr>"
  have "py_random g 0 < 1" using assms(5) by (simp add: unit_interval_def)
  then have w: "weighted_choice [0..<n_states m] (start_prob m) g = Inr (0, ?g0)"
    using assms(1,2) by (simp add: weighted_choice_first)
  have u: "unit_interval (py_random ?g0)" using assms(5) by (simp add: unit_interval_def)
  let ?v0 = "\<lparr>state = 0, data = [], state_seq = [], dwells = replicate (n_states m) [], dwell = 0\<rparr>"
  have "state ?v0 = 0" by simp
  from absorbing_loop[OF assms(3,4) _ this u, of "nat 5"]
  have l: "random_data_loop m False (nat 5) (?v0, ?g0)
        = Inr (?v0\<lparr>data := replicate 5 e0, state_seq := replicate 5 0, dwell := 5\<rparr>,
               ?g0\<lparr>py_random := \<lambda>j. py_random ?g0 (j + nat 5)\<rparr>)"
    using assms(1) by simp
  have r: "- sys_maxint - 1 \<le> 5" "5 \<le> sys_maxint"
    by (simp_all add: sys_maxint_def)
  show ?thesis
    unfolding random_data_in_range[OF r] outcome_def w sum.case prod.case l
    by (simp add: assms(1) eval_nat_numeral)
qed

text \<open>
  The model \<open>absorbing_model\<close> with every draw 1/2.
\<close>

theorem absorbing_state_never_flushed_witness:
  "n_states absorbing_model = 2 \<and> start_prob absorbing_model = [Fin 1, Fin 0]
   \<and> trans_prob absorbing_model = [[Fin 1, Fin 0], [Fin (1/2), Fin (1/2)]]
   \<and> emissions absorbing_model = [[342], [541]]
   \<and> unit_interval (py_random (const_rng (1/2)))
   \<and> outcome (random_data absorbing_model 5 False (const_rng (1/2)))
       = Inr ([[342], [342], [342], [342], [342]], [0, 0, 0, 0, 0], [[], []])"
  using absorbing_state_never_flushed [of absorbing_model "[Fin (1/2), Fin (1/2)]" "[342]" "[541]" "const_rng (1/2)"]
  by (simp add: absorbing_model_def unit_interval_def const_rng_def)

text \<open>
  C2 (as amended). The alternating model, four steps without noise, whatever the uniform
  draws: the state sequence is \<open>[0, 1, 0, 1]\<close>, the observations are the emission rows
  of these states, and each state has two recorded dwells: those of state 1 are
  \<open>[1, 1]\<close>, and the second of state 0 is 1. The last run, of state 1, is recorded,
  since the state sampled after the last step differs.
\<close>

theorem alternating_scenario:
  assumes "unit_interval (py_random g)"
  shows "\<exists>d. outcome (random_data alternating_model 4 False g)
           = Inr ([[10, 0], [0, 20], [10, 0], [0, 20]], [0, 1, 0, 1], [[d, 1], [1, 1]])"
proof -
  have u: "\<And>k. 0 \<le> py_random g k" "\<And>k. py_random g k < 1" "\<And>k. \<not> py_random g k < 0"
    using assms by (simp_all add: unit_interval_def not_less)
  have "outcome (random_data alternating_model 4 False g)
           = Inr ([[10, 0], [0, 20], [10, 0], [0, 20]], [0, 1, 0, 1], [[0, 1], [1, 1]])"
    by (simp add: random_data_def sys_maxint_def outcome_def alternating_model_def weighted_choice_def
        next_draw_def random_data_step_def eval_nat_numeral upt_rec u)
  then show ?thesis by blast
qed

text \<open>
  Every draw 1/2.
\<close>

theorem alternating_scenario_witness:
  "unit_interval (py_random (const_rng (1/2)))
   \<and> (\<exists>d. outcome (random_data alternating_model 4 False (const_rng (1/2)))
           = Inr ([[10, 0], [0, 20], [10, 0], [0, 20]], [0, 1, 0, 1], [[d, 1], [1, 1]]))"
  using alternating_scenario [of "const_rng (1/2)"]
  by (simp add: unit_interval_def const_rng_def)

text \<open>
  C2 as stated fails: the dwell lists are not \<open>[[1], [1]]\<close>.
\<close>

theorem alternating_scenario_counterexample:
  "outcome (random_data alternating_model 4 False (const_rng (1/2)))
     = Inr ([[10, 0], [0, 20], [10, 0], [0, 20]], [0, 1, 0, 1], [[0, 1], [1, 1]])
   \<and> outcome (random_data alternating_model 4 False (const_rng (1/2)))
     \<noteq> Inr ([[10, 0], [0, 20], [10, 0], [0, 20]], [0, 1, 0, 1], [[1], [1]])"
  by (simp add: random_data_def sys_maxint_def outcome_def alternating_model_def weighted_choice_def
        next_draw_def random_data_step_def eval_nat_numeral upt_rec const_rng_def)

section \<open>Dwell accounting\<close>

text \<open>
  The completed runs, laid out again and followed by the run in progress, are the path:
  \<open>runs_from\<close> loses no step and counts none twice.
\<close>

lemma runs_from_path:
  "\<exists>j. concat (map (\<lambda>r. replicate (snd r) (fst r)) (runs_from s k xs)) @ replicate j (last (s # xs))
        = replicate k s @ xs"
proof (induction xs arbitrary: s k)
  case Nil
  show ?case by (rule exI[of _ k]) simp
next
  case (Cons x xs)
  show ?case
  proof (cases "x = s")
    case True
    from Cons.IH[of s "Suc k"] show ?thesis
      using True by (simp add: replicate_app_Cons_same)
  next
    case False
    from Cons.IH[of x 1] show ?thesis
      using False by simp
  qed
qed






section \<open>Properties of the model factory\<close>

lemma transition_rows_length:
  "transition_rows n is g = (rows, g') \<Longrightarrow> length rows = length is"
  by (induction "is" arbitrary: g rows g') (auto split: prod.splits)

lemma transition_rows_row_length:
  "transition_rows n is g = (rows, g') \<Longrightarrow> \<forall>row \<in> set rows. length row = n"
  by (induction "is" arbitrary: g rows g')
     (auto split: prod.splits simp: transition_row_def next_draw_def draws_def normalise_def Let_def)

text \<open>
  C7 (as amended). \<open>random_model_from_emissions\<close> raises nothing on a matrix, whatever
  its numbers of rows and columns, zero included: it returns a model with \<open>n_states\<close> the
  number of rows and \<open>n_obs\<close> the number of columns, the matrix as its emissions, and a
  start vector and transition matrix of \<open>n_states\<close> entries. A flat vector of any
  length \<open>n\<close> is reshaped to \<open>n\<close> rows of one column, and nothing is raised either.
\<close>

theorem random_model_from_emissions_never_rejects:
  "(\<exists>m g'. random_model_from_emissions (Array2 c rows) g = Inr (m, g')
       \<and> n_states m = length rows \<and> n_obs m = c \<and> emissions m = rows
       \<and> length (start_prob m) = length rows \<and> length (trans_prob m) = length rows)
   \<and> (\<exists>m g'. random_model_from_emissions (Array1 xs) g = Inr (m, g')
       \<and> n_states m = length xs \<and> n_obs m = 1 \<and> emissions m = map (\<lambda>x. [x]) xs
       \<and> length (start_prob m) = length xs \<and> length (trans_prob m) = length xs)"
  by (auto simp: random_model_from_emissions_def draws_def normalise_def Let_def
           split: prod.splits dest: transition_rows_length)

text \<open>
  C7 as stated fails: a matrix of no rows and three columns gives a model of no states,
  and a matrix of two rows and no columns gives a model with \<open>n_obs = 0\<close>.
\<close>

theorem random_model_from_emissions_empty_counterexample:
  "outcome (random_model_from_emissions (Array2 3 []) (const_rng (1/2)))
     = Inr \<lparr>n_states = 0, n_obs = 3, start_prob = [], trans_prob = [], emissions = []\<rparr>
   \<and> outcome (random_model_from_emissions (Array2 0 [[], []]) (const_rng (1/2)))
     = Inr \<lparr>n_states = 2, n_obs = 0, start_prob = [Fin (1/2), Fin (1/2)],
             trans_prob = [[Fin (2/3), Fin (1/3)], [Fin (1/3), Fin (2/3)]],
             emissions = [[], []]\<rparr>"
  by (simp add: random_model_from_emissions_def outcome_def const_rng_def draws_def normalise_def
      transition_row_def next_draw_def np_div_def upt_rec eval_nat_numeral)

text \<open>
  C4 fails when a uniform draw is exactly 0, a value that \<^verbatim>\<open>random_sample\<close> and
  \<^verbatim>\<open>random.random()\<close> can return: the sums that the start vector and a transition
  row are divided by are then 0, and the entries are \<open>nan\<close>. Here
  \<open>n_states = n_obs = 1\<close> and every draw is 0.
\<close>

theorem random_model_zero_draws:
  "outcome (random_model 1 1 (const_rng 0))
     = Inr \<lparr>n_states = 1, n_obs = 1, start_prob = [NaN], trans_prob = [[NaN]], emissions = [[0]]\<rparr>"
  by (simp add: random_model_def randint_matrix_def random_model_from_emissions_def outcome_def
      const_rng_def draws_def normalise_def transition_row_def next_draw_def np_div_def upt_rec)

subsection \<open>The factory away from zero draws\<close>

lemma nth_le_sum_list_real:
  "\<forall>x \<in> set xs. (0::real) \<le> x \<Longrightarrow> i < length xs \<Longrightarrow> xs ! i \<le> sum_list xs"
proof (induction xs arbitrary: i)
  case Nil
  then show ?case by simp
next
  case (Cons x xs)
  have "0 \<le> sum_list xs" using Cons.prems(1) by (intro sum_list_nonneg) simp
  then show ?case using Cons by (cases i) (auto intro: order_trans[OF Cons.IH])
qed

lemma sum_list_divide: "sum_list (map (\<lambda>x. x / s) t) = sum_list t / (s::real)"
  by (induction t) (simp_all add: add_divide_distrib)

lemma normalise_distribution:
  assumes "\<forall>x \<in> set t. 0 \<le> x" and "0 < sum_list t"
  shows "distribution (normalise t)"
proof -
  have "normalise t = map (\<lambda>x. Fin (x / sum_list t)) t"
    using assms(2) by (simp add: normalise_def np_div_def)
  then show ?thesis
    using assms by (simp add: distribution_def list_all_iff comp_def sum_list_divide)
qed

lemma transition_row_distribution:
  assumes "i < n" and "0 < py_random g 0" and "\<forall>k. 0 \<le> np_sample g k"
  shows "distribution (fst (transition_row n i g)) \<and> length (fst (transition_row n i g)) = n"
proof -
  let ?t = "(map (\<lambda>x. py_random g 0 * x) (map (np_sample g) [0..<n]))[i := py_random g 0]"
  have nn: "\<forall>x \<in> set ?t. 0 \<le> x"
    using assms(2,3) by (auto dest!: set_update_subset_insert[THEN subsetD])
  have "?t ! i \<le> sum_list ?t"
    using nn assms(1) by (intro nth_le_sum_list_real) simp_all
  then have "0 < sum_list ?t" using assms(1,2) by simp
  from normalise_distribution[OF nn this] show ?thesis
    by (simp add: transition_row_def next_draw_def draws_def normalise_def Let_def)
qed

lemma transition_rows_distribution:
  "\<forall>i \<in> set is. i < n \<Longrightarrow> \<forall>k. 0 < py_random g k \<Longrightarrow> \<forall>k. 0 \<le> np_sample g k
   \<Longrightarrow> transition_rows n is g = (rows, g')
   \<Longrightarrow> list_all (\<lambda>row. length row = n \<and> distribution row) rows"
proof (induction "is" arbitrary: g rows g')
  case Nil
  then show ?case by simp
next
  case (Cons i "is")
  obtain t g1 where t: "transition_row n i g = (t, g1)" by (cases "transition_row n i g")
  obtain ts g2 where ts: "transition_rows n is g1 = (ts, g2)" by (cases "transition_rows n is g1")
  have g1: "g1 = g\<lparr>py_random := \<lambda>k. py_random g (Suc k), np_sample := \<lambda>k. np_sample g (n + k)\<rparr>"
    using t by (simp add: transition_row_def next_draw_def draws_def Let_def)
  have "list_all (\<lambda>row. length row = n \<and> distribution row) ts"
    using Cons.prems(1-3) by (intro Cons.IH[OF _ _ _ ts]) (simp_all add: g1)
  moreover have "distribution t \<and> length t = n"
    using transition_row_distribution[of i n g] Cons.prems(1-3) t by simp
  moreover have "rows = t # ts" using Cons.prems(4) t ts by auto
  ultimately show ?case by simp
qed

text \<open>
  Away from the zero draws the factory's model is valid: for a matrix with a row and a
  column and non-negative entries, when every uniform draw is positive. (The quotients
  here are exact and the sums are 1; the program's are doubles and sum to 1 within
  rounding.)
\<close>

lemma random_model_from_emissions_valid:
  assumes "rows \<noteq> []" and "0 < c"
    and "list_all (\<lambda>row. length row = c \<and> list_all (\<lambda>x. 0 \<le> x) row) rows"
    and "\<forall>k. 0 < py_random g k" and "\<forall>k. 0 < np_sample g k"
    and "random_model_from_emissions (Array2 c rows) g = Inr (m, g')"
  shows "valid_model m"
proof -
  let ?n = "length rows"
  let ?u = "map (np_sample g) [0..<?n]"
  let ?g1 = "g\<lparr>np_sample := \<lambda>k. np_sample g (?n + k)\<rparr>"
  obtain tp g2 where tp: "transition_rows ?n [0..<?n] ?g1 = (tp, g2)"
    by (cases "transition_rows ?n [0..<?n] ?g1")
  have m: "m = \<lparr>n_states = ?n, n_obs = c, start_prob = normalise ?u, trans_prob = tp, emissions = rows\<rparr>"
    using assms(6) tp by (auto simp: random_model_from_emissions_def draws_def Let_def)
  have n: "0 < ?n" using assms(1) by simp
  have nn: "\<forall>x \<in> set ?u. 0 \<le> x" using assms(5) by (auto intro: less_imp_le)
  have "?u ! 0 \<le> sum_list ?u" using nn n by (intro nth_le_sum_list_real) simp_all
  moreover have "0 < np_sample g 0" using assms(5) by simp
  ultimately have "0 < sum_list ?u" using n by (simp add: nth_map_upt)
  from normalise_distribution[OF nn this] have s: "distribution (normalise ?u)" .
  have r: "list_all (\<lambda>row. length row = ?n \<and> distribution row) tp"
    using assms(4,5) by (intro transition_rows_distribution[OF _ _ _ tp]) (simp_all add: less_imp_le)
  have l: "length tp = ?n" using transition_rows_length[OF tp] by simp
  show ?thesis
    using n assms(2,3) s r l by (simp add: m valid_model_def normalise_def)
qed

end
